theory Spec2Isabelle
  imports Main "HOL-Library.Word" "HOL-Library.Monad_Syntax"
begin

unbundle bit_operations_syntax

section \<open>Machine types and constants of sps30.c\<close>

type_synonym u8 = "8 word"
type_synonym u16 = "16 word"
type_synonym u32 = "32 word"

text \<open>
  C \<open>int\<close> return codes are modelled as \<open>int\<close>: 0 for success, a negated errno otherwise.
  The errno numbers come from the kernel headers.
\<close>

definition EIO :: int where
  "EIO = 5"

definition ETIMEDOUT :: int where
  "ETIMEDOUT = 110"

definition SPS30_CRC8_POLYNOMIAL :: u8 where
  "SPS30_CRC8_POLYNOMIAL = 0x31"

definition CRC8_INIT_VALUE :: u8 where
  "CRC8_INIT_VALUE = 0xFF"

definition SPS30_MAX_READ_SIZE :: nat where
  "SPS30_MAX_READ_SIZE = 48"

definition SPS30_MAX_PM :: int where
  "SPS30_MAX_PM = 3000"

definition SPS30_START_MEAS :: u16 where
  "SPS30_START_MEAS = 0x0010"

definition SPS30_STOP_MEAS :: u16 where
  "SPS30_STOP_MEAS = 0x0104"

definition SPS30_RESET :: u16 where
  "SPS30_RESET = 0xd304"

definition SPS30_READ_DATA_READY_FLAG :: u16 where
  "SPS30_READ_DATA_READY_FLAG = 0x0202"

definition SPS30_READ_DATA :: u16 where
  "SPS30_READ_DATA = 0x0300"

definition SPS30_READ_SERIAL :: u16 where
  "SPS30_READ_SERIAL = 0xd033"

definition SPS30_START_FAN_CLEANING :: u16 where
  "SPS30_START_FAN_CLEANING = 0x5607"

section \<open>CRC-8\<close>

text \<open>
  Modelled from the spec: the kernel's CRC-8 library (\<open>crc8_populate_msb\<close> and \<open>crc8\<close> of
  lib/crc8.c, and \<open>CRC8_INIT_VALUE\<close>) is not part of the driver source. The spec gives
  the checksum as CRC-8 with polynomial 0x31, initial value 0xFF, most significant bit
  first. \<open>crc8_msb_bit\<close> is one step of the bitwise division, the table holds the
  remainder of every byte after eight steps, and \<open>crc8\<close> folds the table over the data.
\<close>

definition crc8_msb_bit :: "u8 \<Rightarrow> u8 \<Rightarrow> u8" where
  "crc8_msb_bit polynomial t =
     (if t AND 0x80 \<noteq> 0 then push_bit 1 t XOR polynomial else push_bit 1 t)"

definition crc8_msb_byte :: "u8 \<Rightarrow> u8 \<Rightarrow> u8" where
  "crc8_msb_byte polynomial t =
     crc8_msb_bit polynomial (crc8_msb_bit polynomial (crc8_msb_bit polynomial
       (crc8_msb_bit polynomial (crc8_msb_bit polynomial (crc8_msb_bit polynomial
         (crc8_msb_bit polynomial (crc8_msb_bit polynomial t)))))))"

definition crc8_populate_msb :: "u8 \<Rightarrow> u8 list" where
  "crc8_populate_msb polynomial = map (\<lambda>i. crc8_msb_byte polynomial (of_nat i)) [0..<256]"

definition crc8 :: "u8 list \<Rightarrow> u8 list \<Rightarrow> u8 \<Rightarrow> u8" where
  "crc8 table pdata crc = foldl (\<lambda>crc b. table ! unat (crc XOR b)) crc pdata"

text \<open>The driver's table, as \<open>sps30_probe\<close> fills it before the first command.\<close>

definition sps30_crc8_table :: "u8 list" where
  "sps30_crc8_table = crc8_populate_msb SPS30_CRC8_POLYNOMIAL"

section \<open>The I2C client and the sleep primitive\<close>

text \<open>
  The bus transceiver and the sleep primitive are collaborators of the driver. A transfer
  is recorded in \<open>trace\<close>; what the k-th operation returns is scripted by the position k
  in the trace: \<open>send_ret\<close> is the return value of \<open>i2c_master_send\<close>, \<open>recv_ret\<close> the
  return value of \<open>i2c_master_recv\<close> with the bytes the device put on the bus, and
  \<open>sleep_ret\<close> the return value of \<open>msleep_interruptible\<close> (the milliseconds left when
  a signal cut the sleep short, 0 after a full sleep).
\<close>

datatype bus_event = I2C_SEND "u8 list" | I2C_RECV nat | MSLEEP nat

record sps30_state =
  send_ret :: "nat \<Rightarrow> int"
  recv_ret :: "nat \<Rightarrow> int \<times> u8 list"
  sleep_ret :: "nat \<Rightarrow> nat"
  trace :: "bus_event list"

definition i2c_master_send :: "sps30_state \<Rightarrow> u8 list \<Rightarrow> nat \<Rightarrow> int \<times> sps30_state" where
  "i2c_master_send state buf count =
     (send_ret state (length (trace state)),
      state\<lparr>trace := trace state @ [I2C_SEND (take count buf)]\<rparr>)"

text \<open>
  A receive that returns \<open>count\<close> has stored the device's bytes at the start of the
  buffer; a failed receive leaves the buffer as it was.
\<close>

definition i2c_master_recv ::
  "sps30_state \<Rightarrow> u8 list \<Rightarrow> nat \<Rightarrow> int \<times> sps30_state \<times> u8 list" where
  "i2c_master_recv state buf count =
     (let (ret, bytes) = recv_ret state (length (trace state));
          n = min count (min (length bytes) (length buf))
      in (ret,
          state\<lparr>trace := trace state @ [I2C_RECV count]\<rparr>,
          if ret = int count then take n bytes @ drop n buf else buf))"

definition msleep_interruptible :: "sps30_state \<Rightarrow> nat \<Rightarrow> nat \<times> sps30_state" where
  "msleep_interruptible state msecs =
     (sleep_ret state (length (trace state)),
      state\<lparr>trace := trace state @ [MSLEEP msecs]\<rparr>)"

section \<open>Commands\<close>

text \<open>
  \<open>sps30_write_then_read\<close>: the receive buffer is \<open>None\<close> for the NULL pointer. The
  result carries the return code, the client and the receive buffer.
\<close>

definition sps30_write_then_read ::
  "sps30_state \<Rightarrow> u8 list \<Rightarrow> nat \<Rightarrow> u8 list option \<Rightarrow> nat
     \<Rightarrow> int \<times> sps30_state \<times> u8 list option" where
  "sps30_write_then_read state txbuf txsize rxbuf rxsize =
     (let (ret, state) = i2c_master_send state txbuf txsize in
      if ret \<noteq> int txsize then (if ret < 0 then ret else - EIO, state, rxbuf)
      else
        (case rxbuf of
           None \<Rightarrow> (0, state, None)
         | Some rb \<Rightarrow>
             (let (ret, state, rb) = i2c_master_recv state rb rxsize in
              if ret \<noteq> int rxsize then (if ret < 0 then ret else - EIO, state, Some rb)
              else (0, state, Some rb))))"

text \<open>
  The loop of \<open>sps30_do_cmd\<close> that validates the received data and strips the crc bytes.
  \<open>i\<close> is the loop index into \<open>buf\<close> and \<open>d\<close> the offset the pointer \<open>data\<close> has reached in
  the caller's buffer. A read past the end of \<open>buf\<close> or a write past the end of the
  caller's buffer is undefined in C: the result is \<open>None\<close>.
\<close>

function sps30_strip_crc ::
  "u8 list \<Rightarrow> nat \<Rightarrow> nat \<Rightarrow> u8 list \<Rightarrow> nat \<Rightarrow> (int \<times> u8 list) option" where
  "sps30_strip_crc buf sz i data d =
     (if i < sz then
        (if i + 2 < length buf then
           (let crc = crc8 sps30_crc8_table [buf ! i, buf ! (i + 1)] CRC8_INIT_VALUE in
            if crc \<noteq> buf ! (i + 2) then Some (- EIO, data)
            else if d + 1 < length data then
              sps30_strip_crc buf sz (i + 3)
                (data[d := buf ! i, d + 1 := buf ! (i + 1)]) (d + 2)
            else None)
         else None)
      else Some (0, data))"
  by pat_completeness auto
termination
  by (relation "measure (\<lambda>(buf, sz, i, data, d). sz - i)") auto

declare sps30_strip_crc.simps [simp del]

text \<open>
  \<open>sps30_do_cmd\<close> in two parts. \<open>sps30_do_cmd_switch\<close> is the declaration of \<open>buf\<close> and the
  \<open>switch\<close> statement: it yields \<open>ret\<close>, the client, \<open>buf\<close> and \<open>size\<close> as they are after it
  (a command that is no case of the switch leaves \<open>ret\<close> at 0). \<open>size\<close> is the number of
  data bytes asked for; every caller passes a constant or a multiple of four that is not
  negative, so it is a \<open>nat\<close>. A read command whose \<open>size + size / 2\<close> exceeds the 48 bytes
  of \<open>buf\<close> would let the bus write past its end: \<open>None\<close>.
\<close>

definition sps30_do_cmd_switch ::
  "sps30_state \<Rightarrow> u16 \<Rightarrow> nat \<Rightarrow> (int \<times> sps30_state \<times> u8 list \<times> nat) option" where
  "sps30_do_cmd_switch state cmd sz =
     (let buf = [ucast (drop_bit 8 cmd), ucast cmd] @ replicate (SPS30_MAX_READ_SIZE - 2) 0 in
      if cmd = SPS30_START_MEAS then
        (let buf = buf[2 := 0x03];
             buf = buf[3 := 0x00];
             buf = buf[4 := crc8 sps30_crc8_table [buf ! 2, buf ! 3] CRC8_INIT_VALUE];
             (ret, state, rb) = sps30_write_then_read state buf 5 None 0
         in Some (ret, state, buf, sz))
      else if cmd = SPS30_STOP_MEAS \<or> cmd = SPS30_RESET \<or> cmd = SPS30_START_FAN_CLEANING then
        (let (ret, state, rb) = sps30_write_then_read state buf 2 None 0
         in Some (ret, state, buf, sz))
      else if cmd = SPS30_READ_DATA_READY_FLAG \<or> cmd = SPS30_READ_DATA
              \<or> cmd = SPS30_READ_SERIAL then
        (let sz = sz + sz div 2 in
         if SPS30_MAX_READ_SIZE < sz then None
         else
           (let (ret, state, rb) = sps30_write_then_read state buf 2 (Some buf) sz
            in Some (ret, state, case rb of Some b \<Rightarrow> b | None \<Rightarrow> buf, sz)))
      else Some (0, state, buf, sz))"

text \<open>
  The rest of \<open>sps30_do_cmd\<close>: the early return of an error and the validation loop.
  \<open>data\<close> is the caller's buffer (the empty list for NULL). The result is the return
  code, the client and the caller's buffer.
\<close>

definition sps30_do_cmd ::
  "sps30_state \<Rightarrow> u16 \<Rightarrow> u8 list \<Rightarrow> nat \<Rightarrow> (int \<times> sps30_state \<times> u8 list) option" where
  "sps30_do_cmd state cmd data sz =
     (case sps30_do_cmd_switch state cmd sz of
        None \<Rightarrow> None
      | Some (ret, state, buf, sz) \<Rightarrow>
          if ret \<noteq> 0 then Some (ret, state, data)
          else map_option (\<lambda>(ret, data). (ret, state, data))
                 (sps30_strip_crc buf sz 0 data 0))"

section \<open>Decoding the sensor's floats\<close>

text \<open>
  C arithmetic on \<open>int\<close>. A result outside the 32-bit range, a shift count outside
  \<open>[0, 31]\<close> and a left shift of a negative value are undefined: \<open>None\<close>. A right shift of
  a negative value is the arithmetic shift, as gcc defines it.
\<close>

definition s32 :: "int \<Rightarrow> int option" where
  "s32 x = (if - (2 ^ 31) \<le> x \<and> x < 2 ^ 31 then Some x else None)"

definition c_shl :: "int \<Rightarrow> int \<Rightarrow> int option" where
  "c_shl a n = (if 0 \<le> n \<and> n < 32 \<and> 0 \<le> a then s32 (a * 2 ^ nat n) else None)"

definition c_shr :: "int \<Rightarrow> int \<Rightarrow> int option" where
  "c_shr a n = (if 0 \<le> n \<and> n < 32 then Some (a div 2 ^ nat n) else None)"

text \<open>
  Modelled from the spec: \<open>get_unaligned_be32\<close> and \<open>GENMASK\<close> are kernel helpers that are
  not part of the driver source. The spec reads the four bytes big-endian and takes the
  mantissa from the low 23 bits and the fraction from the low \<open>23 - biased\<close> mantissa
  bits. \<open>GENMASK h l\<close> is the kernel's \<open>(~0UL - (1UL << l) + 1) & (~0UL >> (BITS_PER_LONG - 1 - h))\<close>,
  the mask of the bits \<open>l\<close> to \<open>h\<close>, with both shift counts checked on a 64-bit long.
  Fewer than four readable bytes is a read out of bounds: \<open>None\<close>.
\<close>

definition get_unaligned_be32 :: "u8 list \<Rightarrow> u32 option" where
  "get_unaligned_be32 p =
     (case p of
        b0 # b1 # b2 # b3 # rest \<Rightarrow>
          Some (push_bit 24 (ucast b0) OR push_bit 16 (ucast b1)
                OR push_bit 8 (ucast b2) OR ucast b3)
      | _ \<Rightarrow> None)"

definition BITS_PER_LONG :: int where
  "BITS_PER_LONG = 64"

definition GENMASK :: "int \<Rightarrow> int \<Rightarrow> int option" where
  "GENMASK h l =
     (if 0 \<le> l \<and> l < BITS_PER_LONG \<and> 0 \<le> BITS_PER_LONG - 1 - h
         \<and> BITS_PER_LONG - 1 - h < BITS_PER_LONG
      then Some ((2 ^ nat BITS_PER_LONG - 1 - 2 ^ nat l + 1)
                 AND ((2 ^ nat BITS_PER_LONG - 1) div 2 ^ nat (BITS_PER_LONG - 1 - h)))
      else None)"

text \<open>
  \<open>sps30_float_to_int_clamped\<close>, statement by statement. \<open>val\<close> is the 32-bit pattern read
  as a signed \<open>int\<close>.
\<close>

definition sps30_float_to_int_clamped :: "u8 list \<Rightarrow> int option" where
  "sps30_float_to_int_clamped fp = do {
     w \<leftarrow> get_unaligned_be32 fp;
     let val = sint w;
     m \<leftarrow> GENMASK 22 0;
     let mantissa = val AND m;
     exp \<leftarrow> c_shr val 23;
     if exp = 0 \<and> mantissa = 0 then Some 0
     else do {
       exp \<leftarrow> s32 (exp - 127);
       if exp < 0 then do {
         a \<leftarrow> c_shl 1 23;
         b \<leftarrow> s32 (a + mantissa);
         c \<leftarrow> s32 (b * 100);
         d \<leftarrow> c_shr c 23;
         n \<leftarrow> s32 (- exp);
         c_shr d n
       } else do {
         shift \<leftarrow> s32 (23 - exp);
         a \<leftarrow> c_shl 1 exp;
         b \<leftarrow> c_shr mantissa shift;
         val \<leftarrow> s32 (a + b);
         if val \<ge> SPS30_MAX_PM then s32 (SPS30_MAX_PM * 100)
         else do {
           h \<leftarrow> s32 (shift - 1);
           g \<leftarrow> GENMASK h 0;
           let fraction = mantissa AND g;
           x \<leftarrow> s32 (val * 100);
           y \<leftarrow> s32 (fraction * 100);
           z \<leftarrow> c_shr y shift;
           s32 (x + z)
         }
       }
     }
   }"

section \<open>Measurement read\<close>

text \<open>
  The \<open>while (tries--)\<close> loop of \<open>sps30_do_meas\<close>. \<open>tries\<close> is the C \<open>int\<close> as a 32-bit
  word: the test reads it and the decrement happens whether or not the body runs. The
  first component of the result is \<open>Some r\<close> when the body returned \<open>r\<close> from the function,
  and \<open>None\<close> when the loop was left by \<open>break\<close> or by its condition; the last component
  is \<open>tries\<close> on leaving. The value of \<open>msleep_interruptible\<close> is dropped, as in the source.
\<close>

function sps30_do_meas_poll ::
  "sps30_state \<Rightarrow> u8 list \<Rightarrow> u32 \<Rightarrow> (int option \<times> sps30_state \<times> u8 list \<times> u32) option" where
  "sps30_do_meas_poll state tmp tries =
     (if tries \<noteq> 0 then
        (let tries = tries - 1 in
         case sps30_do_cmd state SPS30_READ_DATA_READY_FLAG tmp 2 of
           None \<Rightarrow> None
         | Some (ret, state, tmp) \<Rightarrow>
             if ret \<noteq> 0 then Some (Some (- EIO), state, tmp, tries)
             else if length tmp \<le> 1 then None
             else if tmp ! 1 = 1 then Some (None, state, tmp, tries)
             else
               (let (left, state) = msleep_interruptible state 300
                in sps30_do_meas_poll state tmp tries))
      else Some (None, state, tmp, tries - 1))"
  by pat_completeness auto
termination
  by (relation "measure (\<lambda>(state, tmp, tries). unat tries)")
     (auto simp: unat_minus_one dest!: unat_gt_0 [THEN iffD2])

declare sps30_do_meas_poll.simps [simp del]

text \<open>The \<open>for\<close> loop that decodes channel \<open>i\<close> from \<open>&tmp[4 * i]\<close> into \<open>data[i]\<close>.\<close>

function sps30_do_meas_decode :: "u8 list \<Rightarrow> int list \<Rightarrow> nat \<Rightarrow> nat \<Rightarrow> int list option" where
  "sps30_do_meas_decode tmp data sz i =
     (if i < sz then
        (case sps30_float_to_int_clamped (drop (4 * i) tmp) of
           None \<Rightarrow> None
         | Some v \<Rightarrow>
             if i < length data then sps30_do_meas_decode tmp (data[i := v]) sz (i + 1)
             else None)
      else Some data)"
  by pat_completeness auto
termination
  by (relation "measure (\<lambda>(tmp, data, sz, i). sz - i)") auto

declare sps30_do_meas_decode.simps [simp del]

text \<open>
  \<open>sps30_do_meas\<close>: \<open>data\<close> is the caller's array of \<open>s32\<close> and \<open>sz\<close> the number of channels.
  The local \<open>tmp\<close> starts as 16 zero bytes; the source leaves it uninitialised and reads
  only bytes that a successful command has written. \<open>sizeof(int)\<close> is 4.
\<close>

definition sps30_do_meas ::
  "sps30_state \<Rightarrow> int list \<Rightarrow> nat \<Rightarrow> (int \<times> sps30_state \<times> int list) option" where
  "sps30_do_meas state data sz =
     (case sps30_do_meas_poll state (replicate 16 0) 5 of
        None \<Rightarrow> None
      | Some (Some ret, state, tmp, tries) \<Rightarrow> Some (ret, state, data)
      | Some (None, state, tmp, tries) \<Rightarrow>
          if tries = 0 then Some (- ETIMEDOUT, state, data)
          else
            (case sps30_do_cmd state SPS30_READ_DATA tmp (4 * sz) of
               None \<Rightarrow> None
             | Some (ret, state, tmp) \<Rightarrow>
                 if ret \<noteq> 0 then Some (ret, state, data)
                 else map_option (\<lambda>data. (0, state, data))
                        (sps30_do_meas_decode tmp data sz 0)))"

section \<open>Vocabulary of the statements\<close>

text \<open>The three commands of \<open>sps30_do_cmd\<close> that receive a response.\<close>

definition is_read_cmd :: "u16 \<Rightarrow> bool" where
  "is_read_cmd cmd \<longleftrightarrow>
     cmd = SPS30_READ_DATA_READY_FLAG \<or> cmd = SPS30_READ_DATA \<or> cmd = SPS30_READ_SERIAL"

text \<open>The initial content of \<open>buf\<close> in \<open>sps30_do_cmd\<close>, and the opcode as it is sent.\<close>

definition cmd_buf :: "u16 \<Rightarrow> u8 list" where
  "cmd_buf cmd = [ucast (drop_bit 8 cmd), ucast cmd] @ replicate 46 0"

definition opcode :: "u16 \<Rightarrow> bus_event" where
  "opcode cmd = I2C_SEND [ucast (drop_bit 8 cmd), ucast cmd]"

text \<open>
  A response as the sensor sends it: every two data bytes followed by their crc8. The
  data bytes alone are \<open>sps30_words\<close>.
\<close>

definition sps30_frame :: "(u8 \<times> u8) list \<Rightarrow> u8 list" where
  "sps30_frame ws =
     concat (map (\<lambda>(a, b). [a, b, crc8 sps30_crc8_table [a, b] CRC8_INIT_VALUE]) ws)"

definition sps30_words :: "(u8 \<times> u8) list \<Rightarrow> u8 list" where
  "sps30_words ws = concat (map (\<lambda>(a, b). [a, b]) ws)"


text \<open>
  A client whose response to a read of two words carries a wrong crc byte after the
  second word: the crc8 of \<open>0x0000\<close> is \<open>0x81\<close>.
\<close>

definition corrupt_second_client :: sps30_state where
  "corrupt_second_client =
     \<lparr>send_ret = (\<lambda>k. 2), recv_ret = (\<lambda>k. (6, [0x3F, 0x80, 0xD0, 0x00, 0x00, 0x00])),
      sleep_ret = (\<lambda>k. 0), trace = []\<rparr>"

text \<open>
  A client that reports data ready at the first poll and then sends the encoding of 1.0
  for the first channel.
\<close>

definition ready_first_client :: sps30_state where
  "ready_first_client =
     \<lparr>send_ret = (\<lambda>k. 2),
      recv_ret = (\<lambda>k. if k < 2 then (3, [0x00, 0x01, 0xB0])
                       else (6, [0x3F, 0x80, 0xD0, 0x00, 0x00, 0x81])),
      sleep_ret = (\<lambda>k. 0), trace = []\<rparr>"

text \<open>
  Clients for the poll loop. Every poll is three events on the trace (send, receive,
  sleep), so the receive of poll \<open>j\<close> is event \<open>3 * j - 2\<close>. \<open>never_ready_client\<close> answers
  all five polls with flag byte 0, \<open>ready_fifth_client\<close> answers the fifth with flag byte
  1; both then send the encoding of 1.0 for the first channel.
\<close>

definition never_ready_client :: sps30_state where
  "never_ready_client =
     \<lparr>send_ret = (\<lambda>k. 2),
      recv_ret = (\<lambda>k. if k < 15 then (3, [0x00, 0x00, 0x81])
                       else (6, [0x3F, 0x80, 0xD0, 0x00, 0x00, 0x81])),
      sleep_ret = (\<lambda>k. 0), trace = []\<rparr>"

definition ready_fifth_client :: sps30_state where
  "ready_fifth_client =
     \<lparr>send_ret = (\<lambda>k. 2),
      recv_ret = (\<lambda>k. if k < 12 then (3, [0x00, 0x00, 0x81])
                       else if k < 15 then (3, [0x00, 0x01, 0xB0])
                       else (6, [0x3F, 0x80, 0xD0, 0x00, 0x00, 0x81])),
      sleep_ret = (\<lambda>k. 0), trace = []\<rparr>"

text \<open>
  A client that is ready at the second poll and whose every sleep is cut short by a
  signal with 250 ms left.
\<close>

definition interrupted_client :: sps30_state where
  "interrupted_client =
     \<lparr>send_ret = (\<lambda>k. 2),
      recv_ret = (\<lambda>k. if k < 3 then (3, [0x00, 0x00, 0x81])
                       else if k < 6 then (3, [0x00, 0x01, 0xB0])
                       else (6, [0x3F, 0x80, 0xD0, 0x00, 0x00, 0x81])),
      sleep_ret = (\<lambda>k. 250), trace = []\<rparr>"

text \<open>The client \<open>st\<close> with the results of its sleeps replaced by \<open>f\<close>.\<close>

definition with_sleep :: "(nat \<Rightarrow> nat) \<Rightarrow> sps30_state \<Rightarrow> sps30_state" where
  "with_sleep f st = st\<lparr>sleep_ret := f\<rparr>"

text \<open>
  Clients that fail: a send of one byte instead of two, a receive that the bus rejects
  with \<open>-EREMOTEIO\<close> (-121), a receive of two bytes instead of three, and a response with a
  wrong crc byte.
\<close>

definition short_send_client :: sps30_state where
  "short_send_client =
     \<lparr>send_ret = (\<lambda>k. 1), recv_ret = (\<lambda>k. (3, [0x00, 0x01, 0xB0])),
      sleep_ret = (\<lambda>k. 0), trace = []\<rparr>"

definition bus_error_client :: sps30_state where
  "bus_error_client =
     \<lparr>send_ret = (\<lambda>k. 2), recv_ret = (\<lambda>k. (- 121, [])),
      sleep_ret = (\<lambda>k. 0), trace = []\<rparr>"

definition short_recv_client :: sps30_state where
  "short_recv_client =
     \<lparr>send_ret = (\<lambda>k. 2), recv_ret = (\<lambda>k. (2, [0x00, 0x01])),
      sleep_ret = (\<lambda>k. 0), trace = []\<rparr>"

definition bad_crc_client :: sps30_state where
  "bad_crc_client =
     \<lparr>send_ret = (\<lambda>k. 2), recv_ret = (\<lambda>k. (3, [0x00, 0x01, 0x00])),
      sleep_ret = (\<lambda>k. 0), trace = []\<rparr>"

text \<open>
  A client that is ready at the first poll and answers the data read with the pattern
  \<open>0x553B7FD8\<close>, exponent field 170, each word with its valid crc8.
\<close>

definition big_exponent_client :: sps30_state where
  "big_exponent_client =
     \<lparr>send_ret = (\<lambda>k. 2),
      recv_ret = (\<lambda>k. if k < 2 then (3, [0x00, 0x01, 0xB0])
                       else (6, [0x55, 0x3B, 0x3E, 0x7F, 0xD8, 0x9E])),
      sleep_ret = (\<lambda>k. 0), trace = []\<rparr>"

section \<open>The checksum\<close>

lemma crc8_table_nth: "crc8_populate_msb p ! unat (x :: u8) = crc8_msb_byte p x"
proof -
  have "unat x < 256"
    using unsigned_less [of x, where ?'a = nat] by simp
  then show ?thesis
    by (simp add: crc8_populate_msb_def)
qed

lemma crc8_word:
  "crc8 sps30_crc8_table [a, b] CRC8_INIT_VALUE =
     crc8_msb_byte 0x31 (crc8_msb_byte 0x31 (0xFF XOR a) XOR b)"
  by (simp add: crc8_def sps30_crc8_table_def crc8_table_nth CRC8_INIT_VALUE_def
      SPS30_CRC8_POLYNOMIAL_def)


lemma crc8_0000: "crc8 sps30_crc8_table [0x00, 0x00] CRC8_INIT_VALUE = 0x81"
  by (simp add: crc8_word crc8_msb_byte_def crc8_msb_bit_def)

lemma crc8_0001: "crc8 sps30_crc8_table [0x00, 0x01] CRC8_INIT_VALUE = 0xB0"
  by (simp add: crc8_word crc8_msb_byte_def crc8_msb_bit_def)

lemma crc8_3F80: "crc8 sps30_crc8_table [0x3F, 0x80] CRC8_INIT_VALUE = 0xD0"
  by (simp add: crc8_word crc8_msb_byte_def crc8_msb_bit_def)

lemma crc8_553B: "crc8 sps30_crc8_table [0x55, 0x3B] CRC8_INIT_VALUE = 0x3E"
  by (simp add: crc8_word crc8_msb_byte_def crc8_msb_bit_def)

lemma crc8_7FD8: "crc8 sps30_crc8_table [0x7F, 0xD8] CRC8_INIT_VALUE = 0x9E"
  by (simp add: crc8_word crc8_msb_byte_def crc8_msb_bit_def)

section \<open>The validation loop\<close>


lemma strip_good:
  "i < sz \<Longrightarrow> i + 2 < length buf \<Longrightarrow> d + 1 < length data \<Longrightarrow>
   buf ! (i + 2) = crc8 sps30_crc8_table [buf ! i, buf ! (i + 1)] CRC8_INIT_VALUE \<Longrightarrow>
   sps30_strip_crc buf sz i data d =
     sps30_strip_crc buf sz (i + 3) (data[d := buf ! i, d + 1 := buf ! (i + 1)]) (d + 2)"
  by (subst sps30_strip_crc.simps) simp

lemma strip_bad:
  "i < sz \<Longrightarrow> i + 2 < length buf \<Longrightarrow>
   buf ! (i + 2) \<noteq> crc8 sps30_crc8_table [buf ! i, buf ! (i + 1)] CRC8_INIT_VALUE \<Longrightarrow>
   sps30_strip_crc buf sz i data d = Some (- EIO, data)"
  by (subst sps30_strip_crc.simps) (simp add: Let_def)

section \<open>Read commands\<close>

lemma read_cmd_neq:
  "is_read_cmd cmd \<Longrightarrow>
   cmd \<noteq> SPS30_START_MEAS \<and> cmd \<noteq> SPS30_STOP_MEAS \<and> cmd \<noteq> SPS30_RESET
   \<and> cmd \<noteq> SPS30_START_FAN_CLEANING"
  by (auto simp: is_read_cmd_def SPS30_READ_DATA_READY_FLAG_def SPS30_READ_DATA_def
      SPS30_READ_SERIAL_def SPS30_START_MEAS_def SPS30_STOP_MEAS_def SPS30_RESET_def
      SPS30_START_FAN_CLEANING_def)

text \<open>
  A read command is a send of the opcode, a receive of \<open>size + size / 2\<close> bytes into
  \<open>buf\<close>, and the validation loop over what was received.
\<close>

lemma do_cmd_read:
  assumes "is_read_cmd cmd" and "sz + sz div 2 \<le> 48"
  shows "sps30_do_cmd st cmd data sz =
    (let k = length (trace st); r = send_ret st k;
         st1 = st\<lparr>trace := trace st @ [opcode cmd]\<rparr>;
         rx = sz + sz div 2; (r2, bytes) = recv_ret st (Suc k);
         st2 = st\<lparr>trace := trace st @ [opcode cmd, I2C_RECV rx]\<rparr>;
         n = min rx (min (length bytes) 48)
     in if r \<noteq> 2 then Some (if r < 0 then r else - EIO, st1, data)
        else if r2 \<noteq> int rx then Some (if r2 < 0 then r2 else - EIO, st2, data)
        else map_option (\<lambda>(ret, data). (ret, st2, data))
               (sps30_strip_crc (take n bytes @ drop n (cmd_buf cmd)) rx 0 data 0))"
  using assms read_cmd_neq [OF assms(1)]
  apply (simp add: sps30_do_cmd_def sps30_do_cmd_switch_def)
  apply (simp add: is_read_cmd_def [symmetric] EIO_def SPS30_MAX_READ_SIZE_def
      sps30_write_then_read_def i2c_master_send_def i2c_master_recv_def Let_def
      cmd_buf_def opcode_def split: prod.splits)
  done

lemma do_cmd_read_ok:
  assumes "is_read_cmd cmd" and "rx = sz + sz div 2" and "rx \<le> 48"
    and "send_ret st (length (trace st)) = 2"
    and "recv_ret st (Suc (length (trace st))) = (int rx, bytes)"
    and "length bytes = rx"
  shows "sps30_do_cmd st cmd data sz =
           map_option (\<lambda>(ret, data). (ret, st\<lparr>trace := trace st @ [opcode cmd, I2C_RECV rx]\<rparr>, data))
             (sps30_strip_crc (bytes @ drop rx (cmd_buf cmd)) rx 0 data 0)"
  using assms(2-) by (simp add: do_cmd_read [OF assms(1)] Let_def)



section \<open>Float decoding\<close>

lemma GENMASK_low:
  assumes "0 \<le> h" and "h < 64"
  shows "GENMASK h 0 = Some (mask (nat (h + 1)))"
proof -
  have a: "(2 ^ 64 - 1 :: int) div 2 ^ nat (63 - h) = mask (64 - nat (63 - h))"
    using drop_bit_mask_eq [of "nat (63 - h)" 64, where ?'a = int]
    by (simp add: drop_bit_eq_div mask_eq_exp_minus_1)
  have b: "64 - nat (63 - h) = nat (h + 1)"
    using assms by simp
  have c: "(2 ^ 64 - 1 :: int) = mask 64"
    by (simp add: mask_eq_exp_minus_1)
  have d: "(mask 64 :: int) AND mask (nat (h + 1)) = mask (nat (h + 1))"
    using assms by (simp add: take_bit_eq_mask [symmetric] min_def)
  have "(2 ^ nat 64 - 1 - 2 ^ nat 0 + 1 :: int) AND (2 ^ nat 64 - 1) div 2 ^ nat (64 - 1 - h)
          = mask (nat (h + 1))"
    using a b c d by simp
  then show ?thesis
    using assms by (simp add: GENMASK_def BITS_PER_LONG_def)
qed

lemma and_mask_mod: "(x :: int) AND mask n = x mod 2 ^ n"
  by (simp add: take_bit_eq_mask [symmetric] take_bit_eq_mod)

lemma sint32_range: "- (2 ^ 31) \<le> sint (w :: u32) \<and> sint w < 2 ^ 31"
  using sint_ge [of w] sint_lt [of w] by simp

text \<open>
  The branches of \<open>sps30_float_to_int_clamped\<close>, by the exponent field \<open>e\<close> and the
  mantissa \<open>m\<close> of the signed value of the pattern.
\<close>

lemma float_zero:
  assumes "get_unaligned_be32 fp = Some w" and "sint w = 0"
  shows "sps30_float_to_int_clamped fp = Some 0"
  using assms
  by (simp add: sps30_float_to_int_clamped_def GENMASK_low c_shr_def)

lemma float_sub_unit:
  assumes w: "get_unaligned_be32 fp = Some w"
    and e: "sint w div 2 ^ 23 = e" and m: "sint w mod 2 ^ 23 = m"
    and r: "96 \<le> e" "e \<le> 126"
  shows "sps30_float_to_int_clamped fp =
           Some ((2 ^ 23 + m) * 100 div 2 ^ 23 div 2 ^ nat (127 - e))"
proof -
  have mb: "0 \<le> m" "m < 2 ^ 23"
    using m [symmetric] by simp_all
  have s: "c_shr (sint w) 23 = Some e"
    using e by (simp add: c_shr_def)
  have ne: "\<not> (e = 0 \<and> sint w AND mask 23 = 0)"
    using r by simp
  have m': "sint w mod 8388608 = m"
    using m by simp
  show ?thesis
    using w r mb ne
    apply (simp add: sps30_float_to_int_clamped_def GENMASK_low and_mask_mod s m)
    apply (simp add: s32_def c_shl_def c_shr_def m' Let_def)
    done
qed


text \<open>
  Below an exponent field of 96, and for a pattern with the sign bit set, the shift count
  \<open>-exp\<close> is 32 or more.
\<close>

lemma float_shift_undefined:
  assumes w: "get_unaligned_be32 fp = Some w"
    and e: "sint w div 2 ^ 23 = e" and r: "e < 96" and nz: "sint w \<noteq> 0"
  shows "sps30_float_to_int_clamped fp = None"
proof -
  define m where "m = sint w mod 2 ^ 23"
  have mb: "0 \<le> m" "m < 2 ^ 23"
    by (simp_all add: m_def)
  have m': "sint w mod 8388608 = m"
    by (simp add: m_def)
  have "sint w = e * 2 ^ 23 + m"
    using e [symmetric] by (simp add: m_def)
  then have ne: "\<not> (e = 0 \<and> m = 0)"
    using nz by auto
  have "(- (2 ^ 31)) div 2 ^ 23 \<le> sint w div (2 ^ 23 :: int)"
    using sint32_range [of w] by (intro zdiv_mono1) simp_all
  then have el: "- 256 \<le> e"
    using e by simp
  have s: "c_shr (sint w) 23 = Some e"
    using e by (simp add: c_shr_def)
  show ?thesis
    using w r mb ne el
    apply (simp add: sps30_float_to_int_clamped_def GENMASK_low and_mask_mod s)
    apply (simp add: s32_def c_shl_def c_shr_def m' Let_def)
    done
qed


lemma int_div_lt:
  assumes "0 < q" and "a < n * q"
  shows "a div q < (n :: int)"
proof -
  have "a div q * q + a mod q = a"
    by simp
  moreover have "0 \<le> a mod q"
    using assms(1) by simp
  ultimately have "a div q * q < n * q"
    using assms(2) by linarith
  then show ?thesis
    using assms(1) by (simp add: mult_less_cancel_right)
qed

lemma int_div_le: "0 \<le> a \<Longrightarrow> 0 < q \<Longrightarrow> a div q \<le> (a :: int)"
  by (metis div_by_1 int_one_le_iff_zero_less zdiv_mono2 zero_less_one)

lemma pow2_le_23: "n \<le> 23 \<Longrightarrow> (2 :: int) ^ n \<le> 8388608"
  using power_increasing [of n 23 "2 :: int"] by simp

lemma float_integer_part:
  assumes w: "get_unaligned_be32 fp = Some w"
    and e: "sint w div 2 ^ 23 = e" and m: "sint w mod 2 ^ 23 = m"
    and r: "127 \<le> e" "e \<le> 150"
  shows "sps30_float_to_int_clamped fp =
           (let intval = 2 ^ nat (e - 127) + m div 2 ^ nat (150 - e) in
            if 3000 \<le> intval then Some 300000
            else Some (intval * 100 + (m mod 2 ^ nat (150 - e)) * 100 div 2 ^ nat (150 - e)))"
proof -
  define P :: int where "P = 2 ^ nat (e - 127)"
  define Q :: int where "Q = 2 ^ nat (150 - e)"
  have mb: "0 \<le> m" "m < 2 ^ 23"
    using m [symmetric] by simp_all
  have m': "sint w mod 8388608 = m"
    using m by simp
  have P: "1 \<le> P" "P \<le> 8388608"
    using r by (simp_all add: P_def pow2_le_23)
  have Q: "1 \<le> Q" "Q \<le> 8388608"
    using r by (simp_all add: Q_def pow2_le_23)
  have dv: "0 \<le> m div Q" "m div Q \<le> m"
    using mb Q by (simp_all add: pos_imp_zdiv_nonneg_iff int_div_le)
  have md: "0 \<le> m mod Q" "m mod Q < Q"
    using Q by simp_all
  have fr: "0 \<le> m mod Q * 100 div Q" "m mod Q * 100 div Q < 100"
    using md Q by (simp_all add: pos_imp_zdiv_nonneg_iff int_div_lt)
  have s: "c_shr (sint w) 23 = Some e"
    using e by (simp add: c_shr_def)
  have ne: "\<not> (e = 0 \<and> m = 0)"
    using r by simp
  have sh: "nat (23 - (e - 127)) = nat (150 - e)" "23 - (e - 127) = 150 - e"
    by simp_all
  have small: "P + m div Q < 3000 \<Longrightarrow> e \<le> 138"
  proof (rule ccontr)
    assume a: "P + m div Q < 3000" and b: "\<not> e \<le> 138"
    have "(2 :: int) ^ 12 \<le> 2 ^ nat (e - 127)"
      using b by (intro power_increasing) simp_all
    then show False
      using a dv by (simp add: P_def)
  qed
  have g: "P + m div Q < 3000 \<Longrightarrow> GENMASK (150 - e - 1) 0 = Some (mask (nat (150 - e)))"
  proof -
    assume "P + m div Q < 3000"
    then have "e \<le> 138"
      by (rule small)
    then have "GENMASK (150 - e - 1) 0 = Some (mask (nat (150 - e - 1 + 1)))"
      using r by (intro GENMASK_low) simp_all
    then show ?thesis
      by simp
  qed
  show ?thesis
    using w r mb ne
    apply (simp add: sps30_float_to_int_clamped_def GENMASK_low and_mask_mod s)
    apply (simp add: s32_def c_shl_def c_shr_def m' Let_def SPS30_MAX_PM_def sh
        flip: P_def Q_def)
    using P Q dv md fr g
    apply (auto simp: and_mask_mod simp flip: Q_def)
    done
qed


lemma float_exp_bounds:
  "- 256 \<le> sint (w :: u32) div 2 ^ 23 \<and> sint w div 2 ^ 23 \<le> 255"
proof -
  have "(- (2 ^ 31)) div 2 ^ 23 \<le> sint w div (2 ^ 23 :: int)"
    using sint32_range [of w] by (intro zdiv_mono1) simp_all
  moreover have "sint w div (2 ^ 23 :: int) \<le> (2 ^ 31 - 1) div 2 ^ 23"
    using sint32_range [of w] by (intro zdiv_mono1) simp_all
  ultimately show ?thesis
    by simp
qed

lemma float_negative_shift:
  assumes w: "get_unaligned_be32 fp = Some w"
    and e: "sint w div 2 ^ 23 = e" and m: "sint w mod 2 ^ 23 = m" and r: "151 \<le> e"
  shows "c_shr m (23 - (e - 127)) = None \<and> sps30_float_to_int_clamped fp = None"
proof -
  have mb: "0 \<le> m" "m < 2 ^ 23"
    using m [symmetric] by simp_all
  have m': "sint w mod 8388608 = m"
    using m by simp
  have s: "c_shr (sint w) 23 = Some e"
    using e by (simp add: c_shr_def)
  have eu: "e \<le> 255"
    using float_exp_bounds [of w] e by simp
  have sh: "c_shr m (150 - e) = None"
    using r by (simp add: c_shr_def)
  show ?thesis
    using w r mb eu
    apply (simp add: sps30_float_to_int_clamped_def GENMASK_low and_mask_mod s)
    apply (simp add: s32_def c_shl_def m' Let_def sh)
    done
qed

lemma float_range:
  assumes "sps30_float_to_int_clamped fp = Some v"
  shows "0 \<le> v \<and> v \<le> 300000"
proof -
  obtain w where w: "get_unaligned_be32 fp = Some w"
    using assms by (cases "get_unaligned_be32 fp") (simp_all add: sps30_float_to_int_clamped_def)
  define e where "e = sint w div 2 ^ 23"
  define m where "m = sint w mod 2 ^ 23"
  have mb: "0 \<le> m" "m < 2 ^ 23"
    by (simp_all add: m_def)
  consider "sint w = 0" | "sint w \<noteq> 0" "e < 96" | "96 \<le> e" "e \<le> 126"
    | "127 \<le> e" "e \<le> 150" | "151 \<le> e"
    by linarith
  then show ?thesis
  proof cases
    case 1
    then show ?thesis
      using assms float_zero [OF w] by simp
  next
    case 2
    then show ?thesis
      using assms float_shift_undefined [OF w e_def [symmetric]] by simp
  next
    case 3
    let ?a = "(2 ^ 23 + m) * 100 div 2 ^ 23"
    have v: "v = ?a div 2 ^ nat (127 - e)"
      using assms float_sub_unit [OF w e_def [symmetric] m_def [symmetric] 3] by simp
    have a: "0 \<le> ?a" "?a < 200"
      using mb by (simp_all add: pos_imp_zdiv_nonneg_iff int_div_lt)
    have "0 \<le> ?a div 2 ^ nat (127 - e)" "?a div 2 ^ nat (127 - e) \<le> ?a"
      using a by (simp_all add: pos_imp_zdiv_nonneg_iff int_div_le)
    then show ?thesis
      using a v by simp
  next
    case 4
    define P :: int where "P = 2 ^ nat (e - 127)"
    define Q :: int where "Q = 2 ^ nat (150 - e)"
    have Q: "0 < Q" and P: "0 < P"
      by (simp_all add: Q_def P_def)
    have dv: "0 \<le> m div Q"
      using mb Q by (simp add: pos_imp_zdiv_nonneg_iff)
    have md: "0 \<le> m mod Q" "m mod Q < Q"
      using Q by simp_all
    have fr: "0 \<le> m mod Q * 100 div Q" "m mod Q * 100 div Q < 100"
      using md Q by (simp_all add: pos_imp_zdiv_nonneg_iff int_div_lt)
    show ?thesis
      using assms float_integer_part [OF w e_def [symmetric] m_def [symmetric] 4] P dv fr
      by (auto simp: Let_def simp flip: P_def Q_def split: if_splits)
  next
    case 5
    then show ?thesis
      using assms float_negative_shift [OF w e_def [symmetric] m_def [symmetric]] by simp
  qed
qed


lemma be32_eval:
  "get_unaligned_be32 [b0, b1, b2, b3] =
     Some (push_bit 24 (ucast b0) OR push_bit 16 (ucast b1) OR push_bit 8 (ucast b2) OR ucast b3)"
  by (simp add: get_unaligned_be32_def)

text \<open>
  The boundary behaviour of the decoder. The all-zero input yields 0 and the encoding of
  1.0 yields 100. Every input with a biased exponent that is not negative whose
  reconstructed integer part \<open>(1 << exp) + (mantissa >> (23 - exp))\<close> is at least 3000 yields
  exactly 300000. For an exponent field in 96..126 the result is
  \<open>(((1 << 23) + mantissa) * 100 >> 23) >> -exp\<close>, the value times 100 rounded down: it lies
  in [0, 99], and in [1, 99] when the exponent field is at least 121.
\<close>

lemma float_boundary_behaviour:
  "sps30_float_to_int_clamped [0, 0, 0, 0] = Some 0
   \<and> sps30_float_to_int_clamped [0x3F, 0x80, 0, 0] = Some 100
   \<and> (get_unaligned_be32 fp = Some w \<and> 0 \<le> sint w div 2 ^ 23 - 127
        \<and> c_shl 1 (sint w div 2 ^ 23 - 127) = Some a
        \<and> c_shr (sint w mod 2 ^ 23) (23 - (sint w div 2 ^ 23 - 127)) = Some b
        \<and> 3000 \<le> a + b
      \<longrightarrow> sps30_float_to_int_clamped fp = Some 300000)
   \<and> (get_unaligned_be32 fq = Some u \<and> 96 \<le> sint u div 2 ^ 23 \<and> sint u div 2 ^ 23 \<le> 126
      \<longrightarrow> (\<exists>r. sps30_float_to_int_clamped fq = Some r
                \<and> r = (2 ^ 23 + sint u mod 2 ^ 23) * 100 div 2 ^ 23
                        div 2 ^ nat (127 - sint u div 2 ^ 23)
                \<and> 0 \<le> r \<and> r \<le> 99
                \<and> (121 \<le> sint u div 2 ^ 23 \<longrightarrow> 1 \<le> r)))"
proof (intro conjI impI)
  show "sps30_float_to_int_clamped [0, 0, 0, 0] = Some 0"
    by (rule float_zero [OF be32_eval]) simp
  show "sps30_float_to_int_clamped [0x3F, 0x80, 0, 0] = Some 100"
    using float_integer_part [OF be32_eval refl refl, of "0x3F" "0x80" 0 0] by simp
next
  assume h: "get_unaligned_be32 fp = Some w \<and> 0 \<le> sint w div 2 ^ 23 - 127
        \<and> c_shl 1 (sint w div 2 ^ 23 - 127) = Some a
        \<and> c_shr (sint w mod 2 ^ 23) (23 - (sint w div 2 ^ 23 - 127)) = Some b
        \<and> 3000 \<le> a + b"
  define e where "e = sint w div 2 ^ 23"
  define m where "m = sint w mod 2 ^ 23"
  have r: "127 \<le> e" "e \<le> 150"
    using h by (simp_all add: e_def c_shr_def split: if_splits)
  have b: "b = m div 2 ^ nat (150 - e)"
    using h r by (simp add: e_def m_def c_shr_def split: if_splits)
  have a: "a = 2 ^ nat (e - 127)"
    using h by (simp add: e_def c_shl_def s32_def split: if_splits)
  have "3000 \<le> 2 ^ nat (e - 127) + m div 2 ^ nat (150 - e)"
    using h a b by simp
  then show "sps30_float_to_int_clamped fp = Some 300000"
    using h r float_integer_part [of fp w e m] by (simp add: e_def m_def Let_def)
next
  assume a: "get_unaligned_be32 fq = Some u \<and> 96 \<le> sint u div 2 ^ 23 \<and> sint u div 2 ^ 23 \<le> 126"
  define e where "e = sint u div 2 ^ 23"
  define m where "m = sint u mod 2 ^ 23"
  define x where "x = (2 ^ 23 + m) * 100 div 2 ^ 23"
  have mb: "0 \<le> m" "m < 2 ^ 23"
    by (simp_all add: m_def)
  have r: "sps30_float_to_int_clamped fq = Some (x div 2 ^ nat (127 - e))"
    using a float_sub_unit [of fq u e m] by (simp add: e_def m_def x_def)
  have "838860800 div 8388608 \<le> (838860800 + m * 100) div 8388608"
    using mb by (intro zdiv_mono1) simp_all
  then have x: "100 \<le> x" "x < 200"
    using mb by (simp_all add: x_def int_div_lt)
  have k: "1 \<le> nat (127 - e)"
    using a unfolding e_def by arith
  then have "(2 :: int) ^ 1 \<le> 2 ^ nat (127 - e)"
    by (intro power_increasing) simp_all
  then have "x div 2 ^ nat (127 - e) \<le> x div 2"
    using x by (intro zdiv_mono2) simp_all
  then have up: "x div 2 ^ nat (127 - e) \<le> 99"
    using x by simp
  have lo: "0 \<le> x div 2 ^ nat (127 - e)"
    using x by (simp add: pos_imp_zdiv_nonneg_iff)
  have one: "1 \<le> x div 2 ^ nat (127 - e)" if "121 \<le> e"
  proof -
    have "(2 :: int) ^ nat (127 - e) \<le> 2 ^ 6"
      using that by (intro power_increasing) simp_all
    then have "x div 2 ^ 6 \<le> x div 2 ^ nat (127 - e)"
      using x by (intro zdiv_mono2) simp_all
    moreover have "100 div 2 ^ 6 \<le> x div (2 ^ 6 :: int)"
      using x by (intro zdiv_mono1) simp_all
    ultimately show ?thesis
      by simp
  qed
  show "\<exists>r. sps30_float_to_int_clamped fq = Some r
                \<and> r = (2 ^ 23 + sint u mod 2 ^ 23) * 100 div 2 ^ 23
                        div 2 ^ nat (127 - sint u div 2 ^ 23)
                \<and> 0 \<le> r \<and> r \<le> 99
                \<and> (121 \<le> sint u div 2 ^ 23 \<longrightarrow> 1 \<le> r)"
    using r up lo one by (simp add: e_def m_def x_def)
qed

lemma float_boundary_behaviour_example:
  "sps30_float_to_int_clamped [0x45, 0x3B, 0x80, 0x00] = Some 300000
   \<and> (\<exists>r. sps30_float_to_int_clamped [0x3F, 0x7F, 0xFF, 0xFF] = Some r \<and> 1 \<le> r \<and> r \<le> 99)"
  using float_boundary_behaviour [of "[0x45, 0x3B, 0x80, 0x00]" "0x453B8000" 2048 952
      "[0x3F, 0x7F, 0xFF, 0xFF]" "0x3F7FFFFF"]
  by (auto simp: get_unaligned_be32_def c_shl_def c_shr_def s32_def)

text \<open>
  C3, at the encoding of 2^-7 = 0.0078125. The input \<open>3C 00 00 00\<close> is nonzero and has
  biased exponent -7, so it takes the branch that the source marks "return values
  ranging from 1 to 99". That branch yields \<open>(100 >> 7) = 0\<close>, outside [1, 99].
\<close>

theorem sub_unit_value_decodes_to_zero:
  "get_unaligned_be32 [0x3C, 0x00, 0x00, 0x00] = Some 0x3C000000
   \<and> sint (0x3C000000 :: u32) div 2 ^ 23 - 127 = - 7
   \<and> sps30_float_to_int_clamped [0x3C, 0x00, 0x00, 0x00] = Some 0"
  using float_sub_unit [OF be32_eval refl refl, of "0x3C" 0 0 0]
  by (simp add: get_unaligned_be32_def)

text \<open>
  C10. For every input whose biased exponent lies in 0..23 (exponent field 127..150) the
  shifts \<open>1 << exp\<close> and \<open>mantissa >> (23 - exp)\<close> have counts in [0, 31] and the decode
  has a value; below the clamp that value is at most 299999, so 300000 comes from the
  clamp branch alone. For a biased exponent of 24 or more (exponent field at least 151)
  \<open>mantissa >> (23 - exp)\<close> has a negative count and the decode has no defined value, so
  a defined decode has an exponent field of at most 150.
\<close>

theorem float_shift_counts:
  "(get_unaligned_be32 fp = Some w \<and> 127 \<le> sint w div 2 ^ 23 \<and> sint w div 2 ^ 23 \<le> 150
      \<longrightarrow> (\<exists>a b r. c_shl 1 (sint w div 2 ^ 23 - 127) = Some a
             \<and> c_shr (sint w mod 2 ^ 23) (23 - (sint w div 2 ^ 23 - 127)) = Some b
             \<and> sps30_float_to_int_clamped fp = Some r
             \<and> (a + b < 3000 \<longrightarrow> r \<le> 299999)
             \<and> (r = 300000 \<longrightarrow> 3000 \<le> a + b)))
   \<and> (get_unaligned_be32 fq = Some u \<and> 151 \<le> sint u div 2 ^ 23
      \<longrightarrow> c_shr (sint u mod 2 ^ 23) (23 - (sint u div 2 ^ 23 - 127)) = None
          \<and> sps30_float_to_int_clamped fq = None)
   \<and> (get_unaligned_be32 fz = Some z \<and> sps30_float_to_int_clamped fz = Some v
      \<longrightarrow> sint z div 2 ^ 23 \<le> 150)"
proof (intro conjI impI)
  assume a: "get_unaligned_be32 fp = Some w \<and> 127 \<le> sint w div 2 ^ 23 \<and> sint w div 2 ^ 23 \<le> 150"
  define e where "e = sint w div 2 ^ 23"
  define m where "m = sint w mod 2 ^ 23"
  define P :: int where "P = 2 ^ nat (e - 127)"
  define Q :: int where "Q = 2 ^ nat (150 - e)"
  have r: "127 \<le> e" "e \<le> 150"
    using a by (simp_all add: e_def)
  have P: "1 \<le> P" "P \<le> 8388608"
    using r by (simp_all add: P_def pow2_le_23)
  have Q: "0 < Q"
    by (simp add: Q_def)
  have shl: "c_shl 1 (e - 127) = Some P"
    using r P by (simp add: c_shl_def s32_def flip: P_def)
  have shr: "c_shr m (23 - (e - 127)) = Some (m div Q)"
    using r by (simp add: c_shr_def Q_def)
  have fr: "m mod Q * 100 div Q < 100"
    using Q by (simp add: int_div_lt)
  have f: "sps30_float_to_int_clamped fp =
             (if 3000 \<le> P + m div Q then Some 300000
              else Some ((P + m div Q) * 100 + m mod Q * 100 div Q))"
    using a float_integer_part [of fp w e m] r
    by (simp add: e_def m_def P_def Q_def Let_def)
  show "\<exists>a b r. c_shl 1 (sint w div 2 ^ 23 - 127) = Some a
             \<and> c_shr (sint w mod 2 ^ 23) (23 - (sint w div 2 ^ 23 - 127)) = Some b
             \<and> sps30_float_to_int_clamped fp = Some r
             \<and> (a + b < 3000 \<longrightarrow> r \<le> 299999)
             \<and> (r = 300000 \<longrightarrow> 3000 \<le> a + b)"
    unfolding e_def [symmetric] m_def [symmetric]
    using shl shr f fr by auto
next
  assume "get_unaligned_be32 fq = Some u \<and> 151 \<le> sint u div 2 ^ 23"
  then show "c_shr (sint u mod 2 ^ 23) (23 - (sint u div 2 ^ 23 - 127)) = None"
    and "sps30_float_to_int_clamped fq = None"
    using float_negative_shift [of fq u] by simp_all
next
  assume a: "get_unaligned_be32 fz = Some z \<and> sps30_float_to_int_clamped fz = Some v"
  show "sint z div 2 ^ 23 \<le> 150"
  proof (rule ccontr)
    assume "\<not> sint z div 2 ^ 23 \<le> 150"
    then have "sps30_float_to_int_clamped fz = None"
      using a float_negative_shift [of fz z, OF _ refl refl] by simp
    then show False
      using a by simp
  qed
qed

theorem float_shift_counts_witness:
  "sps30_float_to_int_clamped [0x45, 0x3B, 0x7F, 0xFF] = Some 299999
   \<and> c_shr (sint (0x4B800000 :: u32) mod 2 ^ 23) (23 - (sint (0x4B800000 :: u32) div 2 ^ 23 - 127)) = None
   \<and> sps30_float_to_int_clamped [0x4B, 0x80, 0x00, 0x00] = None"
  using float_shift_counts [of "[0x45, 0x3B, 0x7F, 0xFF]" "0x453B7FFF"
      "[0x4B, 0x80, 0x00, 0x00]" "0x4B800000" "[0x45, 0x3B, 0x7F, 0xFF]" "0x453B7FFF" 299999]
    float_integer_part [OF be32_eval refl refl, of "0x45" "0x3B" "0x7F" "0xFF"]
  by (auto simp: get_unaligned_be32_def)

section \<open>Frames in the validation loop\<close>

lemma frame_Cons:
  "sps30_frame ((a, b) # ws) = [a, b, crc8 sps30_crc8_table [a, b] CRC8_INIT_VALUE] @ sps30_frame ws"
  by (simp add: sps30_frame_def)

lemma words_Cons: "sps30_words ((a, b) # ws) = [a, b] @ sps30_words ws"
  by (simp add: sps30_words_def)

lemma length_frame: "length (sps30_frame ws) = 3 * length ws"
  by (induction ws) (auto simp: sps30_frame_def)

lemma length_words: "length (sps30_words ws) = 2 * length ws"
  by (induction ws) (auto simp: sps30_words_def)

lemma strip_good_prefix:
  "length pre + 3 * length good \<le> sz \<Longrightarrow> d + 2 * length good \<le> length data \<Longrightarrow>
   sps30_strip_crc (pre @ sps30_frame good @ post) sz (length pre) data d =
     sps30_strip_crc (pre @ sps30_frame good @ post) sz (length pre + 3 * length good)
       (take d data @ sps30_words good @ drop (d + 2 * length good) data)
       (d + 2 * length good)"
proof (induction good arbitrary: pre data d)
  case Nil
  then show ?case
    by (simp add: sps30_frame_def sps30_words_def)
next
  case (Cons w ws)
  obtain a b where w: "w = (a, b)"
    by (cases w)
  define c where "c = crc8 sps30_crc8_table [a, b] CRC8_INIT_VALUE"
  define buf where "buf = pre @ sps30_frame (w # ws) @ post"
  define pre' where "pre' = pre @ [a, b, c]"
  define data' where "data' = data[d := a, d + 1 := b]"
  have buf: "buf = pre' @ sps30_frame ws @ post"
    by (simp add: buf_def pre'_def w frame_Cons c_def)
  have buf_alt: "buf = pre @ a # b # c # (sps30_frame ws @ post)"
    by (simp add: buf_def w frame_Cons c_def)
  have nth: "buf ! length pre = a" "buf ! (length pre + 1) = b" "buf ! (length pre + 2) = c"
    by (simp_all add: buf_alt nth_append)
  have lens: "length pre < sz" "length pre + 2 < length buf" "d + 1 < length data"
    using Cons.prems by (simp_all add: buf_alt)
  have step: "sps30_strip_crc buf sz (length pre) data d =
                sps30_strip_crc buf sz (length pre + 3)
                  (data[d := buf ! length pre, d + 1 := buf ! (length pre + 1)]) (d + 2)"
    using lens nth by (intro strip_good) (simp_all add: c_def)
  have ih: "sps30_strip_crc buf sz (length pre') data' (d + 2) =
              sps30_strip_crc buf sz (length pre' + 3 * length ws)
                (take (d + 2) data' @ sps30_words ws @ drop (d + 2 + 2 * length ws) data')
                (d + 2 + 2 * length ws)"
    unfolding buf using Cons.prems
    by (intro Cons.IH) (simp_all add: pre'_def data'_def)
  have e1: "length pre + 3 = length pre'"
    by (simp add: pre'_def)
  have e2: "data[d := buf ! length pre, d + 1 := buf ! (length pre + 1)] = data'"
    by (simp only: nth data'_def)
  note step2 = step [unfolded e1 e2]
  have t: "take (d + 2) data' = take d data @ [a, b]"
    using lens(3) by (simp add: data'_def take_Suc_conv_app_nth numeral_2_eq_2)
  have dr: "drop (d + 2 + 2 * length ws) data' = drop (d + 2 + 2 * length ws) data"
    by (simp add: data'_def)
  have g1: "length pre' + 3 * length ws = length pre + 3 * length (w # ws)"
    by (simp add: pre'_def)
  have g3: "d + 2 + 2 * length ws = d + 2 * length (w # ws)"
    by simp
  have g2: "take (d + 2) data' @ sps30_words ws @ drop (d + 2 + 2 * length ws) data' =
              take d data @ sps30_words (w # ws) @ drop (d + 2 * length (w # ws)) data"
    using t dr by (simp add: w words_Cons)
  have "sps30_strip_crc buf sz (length pre) data d =
          sps30_strip_crc buf sz (length pre' + 3 * length ws)
            (take (d + 2) data' @ sps30_words ws @ drop (d + 2 + 2 * length ws) data')
            (d + 2 + 2 * length ws)"
    using step2 ih by (rule trans)
  then have "sps30_strip_crc buf sz (length pre) data d =
          sps30_strip_crc buf sz (length pre + 3 * length (w # ws))
            (take d data @ sps30_words (w # ws) @ drop (d + 2 * length (w # ws)) data)
            (d + 2 * length (w # ws))"
    unfolding g2 unfolding g1 g3 .
  then show ?case
    by (simp only: buf_def)
qed


section \<open>The loops of the measurement read\<close>

lemma decode_result:
  "sps30_do_meas_decode tmp data sz i = Some data' \<Longrightarrow>
   length data' = length data
   \<and> (i < sz \<longrightarrow> sz \<le> length data)
   \<and> (\<forall>j. i \<le> j \<and> j < sz \<longrightarrow> sps30_float_to_int_clamped (drop (4 * j) tmp) = Some (data' ! j))
   \<and> (\<forall>j. j < i \<or> sz \<le> j \<longrightarrow> data' ! j = data ! j)"
proof (induction tmp data sz i rule: sps30_do_meas_decode.induct)
  case (1 tmp data sz i)
  show ?case
  proof (cases "i < sz")
    case False
    then show ?thesis
      using "1.prems" by (auto simp: sps30_do_meas_decode.simps)
  next
    case True
    then obtain v where v: "sps30_float_to_int_clamped (drop (4 * i) tmp) = Some v"
      and len: "i < length data"
      and rec: "sps30_do_meas_decode tmp (data[i := v]) sz (i + 1) = Some data'"
      using "1.prems"
      by (subst (asm) sps30_do_meas_decode.simps) (auto split: option.splits if_splits)
    note ih = "1.IH" [OF True v len rec]
    have at_i: "data' ! i = v"
      using ih len by simp
    have "sps30_float_to_int_clamped (drop (4 * j) tmp) = Some (data' ! j)"
      if "i \<le> j" "j < sz" for j
      using that ih v at_i by (cases "j = i") simp_all
    moreover have "data' ! j = data ! j" if "j < i \<or> sz \<le> j" for j
      using that ih True by auto
    moreover have "sz \<le> length data"
      using ih len by (cases "i + 1 < sz") simp_all
    ultimately show ?thesis
      using ih by simp
  qed
qed

text \<open>Every return from inside the poll loop is \<open>-EIO\<close>.\<close>

lemma poll_return:
  "sps30_do_meas_poll st tmp tries = Some (Some r, st', tmp', t') \<Longrightarrow> r = - EIO"
proof (induction st tmp tries rule: sps30_do_meas_poll.induct)
  case (1 state tmp tries)
  show ?case
  proof (cases "tries = 0")
    case True
    then show ?thesis
      using "1.prems" by (simp add: sps30_do_meas_poll.simps)
  next
    case False
    then show ?thesis
      using "1.prems" "1.IH"
      by (subst (asm) sps30_do_meas_poll.simps)
         (auto simp: Let_def split: option.splits if_splits prod.splits)
  qed
qed

text \<open>One iteration of the poll loop, and its exit.\<close>

lemma poll_unfold:
  "tries \<noteq> 0 \<Longrightarrow>
   sps30_do_meas_poll st tmp tries =
     (case sps30_do_cmd st SPS30_READ_DATA_READY_FLAG tmp 2 of
        None \<Rightarrow> None
      | Some (ret, st1, tmp1) \<Rightarrow>
          if ret \<noteq> 0 then Some (Some (- EIO), st1, tmp1, tries - 1)
          else if length tmp1 \<le> 1 then None
          else if tmp1 ! 1 = 1 then Some (None, st1, tmp1, tries - 1)
          else sps30_do_meas_poll (snd (msleep_interruptible st1 300)) tmp1 (tries - 1))"
  by (subst sps30_do_meas_poll.simps) (simp add: Let_def split: prod.splits option.splits)

lemma poll_exit: "sps30_do_meas_poll st tmp 0 = Some (None, st, tmp, - 1)"
  by (simp add: sps30_do_meas_poll.simps)

section \<open>Evaluation on concrete clients\<close>

lemma replicate16: "replicate 16 (0 :: u8) = [0, 0, 0, 0, 0, 0, 0, 0, 0, 0, 0, 0, 0, 0, 0, 0]"
  by (simp add: numeral_eq_Suc)

lemmas eval_simps = sps30_do_meas_def sps30_do_meas_poll.simps sps30_do_meas_decode.simps
  sps30_strip_crc.simps sps30_do_cmd_def sps30_do_cmd_switch_def sps30_write_then_read_def
  i2c_master_send_def
  i2c_master_recv_def msleep_interruptible_def crc8_0000 crc8_0001 crc8_3F80
  SPS30_READ_DATA_READY_FLAG_def SPS30_READ_DATA_def SPS30_READ_SERIAL_def SPS30_START_MEAS_def
  SPS30_STOP_MEAS_def SPS30_RESET_def SPS30_START_FAN_CLEANING_def SPS30_MAX_READ_SIZE_def
  EIO_def ETIMEDOUT_def Let_def opcode_def

section \<open>Checksum failures\<close>

text \<open>
  C5, as the code has it. When the first wrong crc byte of a received frame follows the
  word \<open>a b\<close>, after the valid triplets \<open>good\<close>, \<open>sps30_do_cmd\<close> returns \<open>-EIO\<close>. The words
  before the corrupted triplet have already been copied to the caller's buffer; the
  buffer is unchanged from that position on.
\<close>

theorem corrupted_checksum_reported:
  assumes "is_read_cmd cmd"
    and "rx = sz + sz div 2" and "rx \<le> 48"
    and "send_ret st (length (trace st)) = 2"
    and "recv_ret st (Suc (length (trace st))) = (int rx, sps30_frame good @ [a, b, c] @ rest)"
    and "length (sps30_frame good @ [a, b, c] @ rest) = rx"
    and "c \<noteq> crc8 sps30_crc8_table [a, b] CRC8_INIT_VALUE"
    and "sz \<le> length data"
  shows "sps30_do_cmd st cmd data sz =
           Some (- EIO, st\<lparr>trace := trace st @ [opcode cmd, I2C_RECV rx]\<rparr>,
                 sps30_words good @ drop (2 * length good) data)"
proof -
  define post where "post = [a, b, c] @ rest @ drop rx (cmd_buf cmd)"
  define buf where "buf = [] @ sps30_frame good @ post"
  define out where "out = take 0 data @ sps30_words good @ drop (0 + 2 * length good) data"
  have len: "3 * length good + 3 + length rest = rx"
    using assms(6) by (simp add: length_frame)
  have room: "2 * length good + 2 \<le> length data"
    using len assms(2,8) by arith
  have buf_alt: "buf = sps30_frame good @ a # b # c # (rest @ drop rx (cmd_buf cmd))"
    by (simp add: buf_def post_def)
  have nth: "buf ! (3 * length good) = a" "buf ! (3 * length good + 1) = b"
    "buf ! (3 * length good + 2) = c"
    by (simp_all add: buf_alt nth_append length_frame)
  have "sps30_strip_crc buf rx (length ([] :: u8 list)) data 0 =
          sps30_strip_crc buf rx (length ([] :: u8 list) + 3 * length good) out (0 + 2 * length good)"
    unfolding buf_def out_def using len room by (intro strip_good_prefix) simp_all
  then have "sps30_strip_crc buf rx 0 data 0 =
          sps30_strip_crc buf rx (3 * length good) out (2 * length good)"
    by simp
  also have "\<dots> = Some (- EIO, out)"
    using len nth assms(7) by (intro strip_bad) (simp_all add: buf_alt length_frame)
  finally have loop: "sps30_strip_crc buf rx 0 data 0 = Some (- EIO, out)" .
  have "sps30_do_cmd st cmd data sz =
          map_option (\<lambda>(ret, data). (ret, st\<lparr>trace := trace st @ [opcode cmd, I2C_RECV rx]\<rparr>, data))
            (sps30_strip_crc ((sps30_frame good @ [a, b, c] @ rest) @ drop rx (cmd_buf cmd)) rx 0 data 0)"
    using assms(2-6) by (intro do_cmd_read_ok [OF assms(1)])
  also have "(sps30_frame good @ [a, b, c] @ rest) @ drop rx (cmd_buf cmd) = buf"
    by (simp add: buf_def post_def)
  finally show ?thesis
    by (simp add: loop out_def)
qed


theorem corrupted_checksum_reported_witness:
  "sps30_do_cmd corrupt_second_client SPS30_READ_DATA [0xAA, 0xAA, 0xAA, 0xAA, 0xAA] 4 =
     Some (- EIO, corrupt_second_client\<lparr>trace := [opcode SPS30_READ_DATA, I2C_RECV 6]\<rparr>,
           [0x3F, 0x80, 0xAA, 0xAA, 0xAA])"
  using corrupted_checksum_reported [of SPS30_READ_DATA 6 4 corrupt_second_client
      "[(0x3F, 0x80)]" 0 0 0 "[]" "[0xAA, 0xAA, 0xAA, 0xAA, 0xAA]"]
  by (simp add: is_read_cmd_def corrupt_second_client_def sps30_frame_def sps30_words_def
      crc8_0000 crc8_3F80)

text \<open>
  A frame of two words whose second crc byte alone is wrong: \<open>-EIO\<close> is returned and the
  first word has been written to the caller's buffer.
\<close>

theorem partial_output_counterexample:
  "sps30_do_cmd corrupt_second_client SPS30_READ_DATA [0xAA, 0xAA, 0xAA, 0xAA] 4 =
     Some (- EIO, corrupt_second_client\<lparr>trace := [I2C_SEND [0x03, 0x00], I2C_RECV 6]\<rparr>,
           [0x3F, 0x80, 0xAA, 0xAA])
   \<and> [0x3F, 0x80, 0xAA, 0xAA] \<noteq> [0xAA, 0xAA, 0xAA, 0xAA :: u8]
   \<and> crc8 sps30_crc8_table [0x3F, 0x80] CRC8_INIT_VALUE = 0xD0
   \<and> crc8 sps30_crc8_table [0x00, 0x00] CRC8_INIT_VALUE = 0x81"
  by (simp add: eval_simps corrupt_second_client_def)

section \<open>Channels of a measurement read\<close>

lemmas float_eval_simps = sps30_float_to_int_clamped_def get_unaligned_be32_def GENMASK_low
  and_mask_mod s32_def c_shl_def c_shr_def SPS30_MAX_PM_def

text \<open>
  Where every decode has a value: a measurement read that returns 0 has left the poll
  loop without a return, read the data with return code 0, and stored in \<open>data[i]\<close>, for
  every channel \<open>i\<close> below \<open>n\<close>, the decoded value of the four bytes at \<open>&tmp[4 * i]\<close>, which
  lies in [0, 300000]; the rest of the caller's array is as it was.
\<close>

lemma meas_defined_values_in_range:
  assumes "sps30_do_meas st data n = Some (0, st', data')"
  shows "\<exists>st1 tmp1 t tmp2.
           sps30_do_meas_poll st (replicate 16 0) 5 = Some (None, st1, tmp1, t)
           \<and> sps30_do_cmd st1 SPS30_READ_DATA tmp1 (4 * n) = Some (0, st', tmp2)
           \<and> length data' = length data \<and> drop n data' = drop n data
           \<and> (\<forall>i<n. sps30_float_to_int_clamped (drop (4 * i) tmp2) = Some (data' ! i)
                     \<and> 0 \<le> data' ! i \<and> data' ! i \<le> 300000)"
proof -
  obtain st1 tmp1 t tmp2 where poll: "sps30_do_meas_poll st (replicate 16 0) 5 = Some (None, st1, tmp1, t)"
    and cmd: "sps30_do_cmd st1 SPS30_READ_DATA tmp1 (4 * n) = Some (0, st', tmp2)"
    and dec: "sps30_do_meas_decode tmp2 data n 0 = Some data'"
    using assms poll_return
    by (fastforce simp: sps30_do_meas_def EIO_def ETIMEDOUT_def
        split: option.splits if_splits prod.splits)
  note d = decode_result [OF dec]
  have len: "length data' = length data"
    using d by simp
  have val: "sps30_float_to_int_clamped (drop (4 * i) tmp2) = Some (data' ! i)" if "i < n" for i
    using d that by simp
  have rng: "0 \<le> data' ! i \<and> data' ! i \<le> 300000" if "i < n" for i
    using float_range [OF val [OF that]] .
  have "drop n data' = drop n data"
    using d len by (intro nth_equalityI) simp_all
  then show ?thesis
    using poll cmd len val rng by blast
qed

text \<open>
  C6, on a payload whose exponent field is above 150. Both words of the response carry
  their valid crc8, so the data read returns 0 and \<open>tmp\<close> holds \<open>55 3B 7F D8\<close>. The biased
  exponent is 43; the source has no guard before \<open>mantissa >> (23 - exp)\<close>, whose count is
  -20, so the decode and with it the measurement read have no defined value: nothing
  keeps what is stored in \<open>data[0]\<close> within [0, 300000].
\<close>

theorem big_exponent_read_is_unguarded:
  "sps30_do_cmd (big_exponent_client\<lparr>trace := [I2C_SEND [2, 2], I2C_RECV 3]\<rparr>) SPS30_READ_DATA
       [0, 1, 0, 0, 0, 0, 0, 0, 0, 0, 0, 0, 0, 0, 0, 0] 4 =
     Some (0, big_exponent_client
             \<lparr>trace := [I2C_SEND [2, 2], I2C_RECV 3, I2C_SEND [3, 0], I2C_RECV 6]\<rparr>,
           [0x55, 0x3B, 0x7F, 0xD8, 0, 0, 0, 0, 0, 0, 0, 0, 0, 0, 0, 0])
   \<and> get_unaligned_be32 [0x55, 0x3B, 0x7F, 0xD8, 0, 0, 0, 0, 0, 0, 0, 0, 0, 0, 0, 0]
       = Some 0x553B7FD8
   \<and> sint (0x553B7FD8 :: u32) div 2 ^ 23 - 127 = 43
   \<and> c_shr (sint (0x553B7FD8 :: u32) mod 2 ^ 23) (23 - 43) = None
   \<and> sps30_float_to_int_clamped [0x55, 0x3B, 0x7F, 0xD8, 0, 0, 0, 0, 0, 0, 0, 0, 0, 0, 0, 0]
       = None
   \<and> sps30_do_meas big_exponent_client [7] 1 = None"
  by (simp add: eval_simps crc8_553B crc8_7FD8 big_exponent_client_def replicate16
      float_eval_simps)

section \<open>The readiness poll\<close>

text \<open>
  On leaving the loop without a return, \<open>tries\<close> is -1 exactly when the last poll did
  not read flag byte 1.
\<close>

lemma poll_leaves:
  "sps30_do_meas_poll st tmp tries = Some (None, st', tmp', t) \<Longrightarrow> tries \<noteq> 0 \<Longrightarrow>
   1 < length tmp' \<and> (t = - 1 \<longleftrightarrow> tmp' ! 1 \<noteq> 1)"
proof (induction st tmp tries rule: sps30_do_meas_poll.induct)
  case (1 state tmp tries)
  from "1.prems" obtain ret st1 tmp1
    where cmd: "sps30_do_cmd state SPS30_READ_DATA_READY_FLAG tmp 2 = Some (ret, st1, tmp1)"
    by (cases "sps30_do_cmd state SPS30_READ_DATA_READY_FLAG tmp 2")
       (auto simp: poll_unfold)
  have ok: "ret = 0" "1 < length tmp1"
    using "1.prems" cmd by (auto simp: poll_unfold split: if_splits)
  show ?case
  proof (cases "tmp1 ! 1 = 1")
    case True
    then have "t = tries - 1" "tmp' = tmp1"
      using "1.prems" cmd ok by (auto simp: poll_unfold)
    moreover have "tries - 1 \<noteq> - 1"
      using "1.prems"(2) by simp
    ultimately show ?thesis
      using True ok by simp
  next
    case False
    obtain left st2 where sl: "msleep_interruptible st1 300 = (left, st2)"
      by (cases "msleep_interruptible st1 300")
    have rec: "sps30_do_meas_poll st2 tmp1 (tries - 1) = Some (None, st', tmp', t)"
      using "1.prems" cmd ok False sl by (simp add: poll_unfold)
    show ?thesis
    proof (cases "tries - 1 = 0")
      case True
      then show ?thesis
        using rec False ok by (simp add: poll_exit)
    next
      case nz: False
      have "sps30_do_meas_poll st2 tmp1 (tries - 1) = Some (None, st', tmp', t) \<Longrightarrow>
            tries - 1 \<noteq> 0 \<Longrightarrow> 1 < length tmp' \<and> (t = - 1 \<longleftrightarrow> tmp' ! 1 \<noteq> 1)"
        using ok False
        by (intro "1.IH" [OF "1.prems"(2) refl cmd _ _ _ _ _ refl, of ret "(st1, tmp1)" st1 tmp1 left])
           (simp_all add: sl)
      then show ?thesis
        using rec nz by simp
    qed
  qed
qed

text \<open>
  What \<open>sps30_do_meas\<close> does after the poll loop, for every client: when the last poll
  did not read flag byte 1 the loop was exhausted and the data is read; when the loop
  is left with \<open>tries\<close> at 0 the last poll read flag byte 1 and the timeout is returned.
\<close>

lemma meas_not_ready_reads_data:
  assumes "sps30_do_meas_poll st (replicate 16 0) 5 = Some (None, st1, tmp1, t)"
    and "tmp1 ! 1 \<noteq> 1"
  shows "sps30_do_meas st data n =
           (case sps30_do_cmd st1 SPS30_READ_DATA tmp1 (4 * n) of
              None \<Rightarrow> None
            | Some (ret, st2, tmp2) \<Rightarrow>
                if ret \<noteq> 0 then Some (ret, st2, data)
                else map_option (\<lambda>data. (0, st2, data)) (sps30_do_meas_decode tmp2 data n 0))"
proof -
  have "t = - 1"
    using poll_leaves [OF assms(1)] assms(2) by simp
  then show ?thesis
    using assms(1) by (simp add: sps30_do_meas_def)
qed

lemma meas_ready_at_last_poll_times_out:
  assumes "sps30_do_meas_poll st (replicate 16 0) 5 = Some (None, st1, tmp1, 0)"
  shows "tmp1 ! 1 = 1 \<and> sps30_do_meas st data n = Some (- ETIMEDOUT, st1, data)"
  using poll_leaves [OF assms] assms by (simp add: sps30_do_meas_def)

text \<open>
  C1, on the client that is never ready. All five polls complete without bus error and
  none reads flag byte 1. The loop is left with \<open>tries\<close> at -1, the test \<open>!tries\<close> fails,
  and the read-data command \<open>0x0300\<close> goes out: the result is what that read gives, here
  0 with a decoded value, and not \<open>-ETIMEDOUT\<close>.
\<close>

theorem never_ready_reads_data:
  "sps30_do_meas never_ready_client [7] 1 =
     Some (0, never_ready_client
             \<lparr>trace := [I2C_SEND [2, 2], I2C_RECV 3, MSLEEP 300, I2C_SEND [2, 2], I2C_RECV 3, MSLEEP 300,
                        I2C_SEND [2, 2], I2C_RECV 3, MSLEEP 300, I2C_SEND [2, 2], I2C_RECV 3, MSLEEP 300,
                        I2C_SEND [2, 2], I2C_RECV 3, MSLEEP 300, I2C_SEND [3, 0], I2C_RECV 6]\<rparr>,
           [100])"
  by (simp add: eval_simps never_ready_client_def replicate16 float_eval_simps)

text \<open>
  C2, on the client that is ready at the fifth poll. The fifth poll reads flag byte 1
  and leaves the loop by \<open>break\<close> with \<open>tries\<close> at 0, the test \<open>!tries\<close> holds, and the
  result is \<open>-ETIMEDOUT\<close> with no read-data command on the bus.
\<close>

theorem ready_at_fifth_poll_times_out:
  "sps30_do_meas ready_fifth_client [7] 1 =
     Some (- ETIMEDOUT, ready_fifth_client
             \<lparr>trace := [I2C_SEND [2, 2], I2C_RECV 3, MSLEEP 300, I2C_SEND [2, 2], I2C_RECV 3, MSLEEP 300,
                        I2C_SEND [2, 2], I2C_RECV 3, MSLEEP 300, I2C_SEND [2, 2], I2C_RECV 3, MSLEEP 300,
                        I2C_SEND [2, 2], I2C_RECV 3]\<rparr>,
           [7])"
  by (simp add: eval_simps ready_fifth_client_def replicate16 float_eval_simps)

section \<open>The sleep between polls\<close>

lemma wtr_sleep:
  "sps30_write_then_read (with_sleep f st) tx n rxb m =
     (case sps30_write_then_read st tx n rxb m of (r, s, b) \<Rightarrow> (r, with_sleep f s, b))"
  by (simp add: sps30_write_then_read_def i2c_master_send_def
      i2c_master_recv_def with_sleep_def Let_def split: prod.splits option.splits)


lemma switch_sleep:
  "sps30_do_cmd_switch (with_sleep f st) cmd sz =
     map_option (\<lambda>(r, s, b, n). (r, with_sleep f s, b, n)) (sps30_do_cmd_switch st cmd sz)"
  by (simp add: sps30_do_cmd_switch_def wtr_sleep Let_def split: prod.splits)

lemma do_cmd_sleep:
  "sps30_do_cmd (with_sleep f st) cmd data sz =
     map_option (\<lambda>(r, s, d). (r, with_sleep f s, d)) (sps30_do_cmd st cmd data sz)"
proof (cases "sps30_do_cmd_switch st cmd sz")
  case None
  then show ?thesis
    by (simp add: sps30_do_cmd_def switch_sleep)
next
  case (Some res)
  obtain ret st1 buf n where "res = (ret, st1, buf, n)"
    by (cases res)
  then show ?thesis
    using Some
    by (cases "sps30_strip_crc buf n 0 data 0") (auto simp: sps30_do_cmd_def switch_sleep)
qed

lemma msleep_sleep:
  "snd (msleep_interruptible (with_sleep f st) ms) = with_sleep f (snd (msleep_interruptible st ms))"
  by (simp add: msleep_interruptible_def with_sleep_def)

lemma poll_sleep:
  "sps30_do_meas_poll (with_sleep f st) tmp tries =
     map_option (\<lambda>(r, s, t, n). (r, with_sleep f s, t, n)) (sps30_do_meas_poll st tmp tries)"
proof (induction st tmp tries rule: sps30_do_meas_poll.induct)
  case (1 state tmp tries)
  show ?case
  proof (cases "tries = 0")
    case True
    then show ?thesis
      by (simp add: poll_exit)
  next
    case False
    show ?thesis
    proof (cases "sps30_do_cmd state SPS30_READ_DATA_READY_FLAG tmp 2")
      case None
      then show ?thesis
        by (simp add: poll_unfold [OF False] do_cmd_sleep)
    next
      case (Some res)
      obtain ret st1 tmp1 where res: "res = (ret, st1, tmp1)"
        by (cases res)
      show ?thesis
      proof (cases "ret \<noteq> 0 \<or> length tmp1 \<le> 1 \<or> tmp1 ! 1 = 1")
        case True
        then show ?thesis
          using Some res by (auto simp: poll_unfold [OF False] do_cmd_sleep)
      next
        case stay: False
        obtain left st2 where sl: "msleep_interruptible st1 300 = (left, st2)"
          by (cases "msleep_interruptible st1 300")
        have ih: "sps30_do_meas_poll (with_sleep f st2) tmp1 (tries - 1) =
                    map_option (\<lambda>(r, s, t, n). (r, with_sleep f s, t, n))
                      (sps30_do_meas_poll st2 tmp1 (tries - 1))"
          using stay by (intro "1.IH" [OF False refl Some _ _ _ _ _ refl, of ret "(st1, tmp1)" st1 tmp1 left])
            (simp_all add: res sl)
        show ?thesis
          using Some res stay sl ih
          by (simp add: poll_unfold [OF False] do_cmd_sleep msleep_sleep case_prod_unfold)
      qed
    qed
  qed
qed


text \<open>
  C8, as the code has it. The value of \<open>msleep_interruptible\<close> is dropped: a measurement
  read on a client whose sleeps return \<open>f\<close> gives the same return code, the same trace and
  the same data as on the client with any other sleep results. An interrupted sleep
  only ends early; the next poll follows.
\<close>

theorem interrupted_sleep_is_ignored:
  "sps30_do_meas (with_sleep f st) data n =
     map_option (\<lambda>(ret, st', data'). (ret, with_sleep f st', data')) (sps30_do_meas st data n)"
proof (cases "sps30_do_meas_poll st (replicate 16 0) 5")
  case None
  then show ?thesis
    by (simp add: sps30_do_meas_def poll_sleep)
next
  case (Some res)
  obtain r st1 tmp1 tries where res: "res = (r, st1, tmp1, tries)"
    by (cases res)
  show ?thesis
  proof (cases "r = None \<and> tries \<noteq> 0")
    case False
    then show ?thesis
      using Some res by (auto simp: sps30_do_meas_def poll_sleep split: option.splits)
  next
    case True
    show ?thesis
    proof (cases "sps30_do_cmd st1 SPS30_READ_DATA tmp1 (4 * n)")
      case None
      then show ?thesis
        using Some res True by (simp add: sps30_do_meas_def poll_sleep do_cmd_sleep)
    next
      case cmd: (Some res2)
      obtain ret st2 tmp2 where "res2 = (ret, st2, tmp2)"
        by (cases res2)
      then show ?thesis
        using Some res True cmd
        by (cases "sps30_do_meas_decode tmp2 data n 0")
           (auto simp: sps30_do_meas_def poll_sleep do_cmd_sleep)
    qed
  qed
qed

theorem interrupted_sleep_is_ignored_witness:
  "sps30_do_meas (with_sleep (\<lambda>k. 250) ready_first_client) [7] 1 =
     Some (0, with_sleep (\<lambda>k. 250) (ready_first_client
             \<lparr>trace := [I2C_SEND [2, 2], I2C_RECV 3, I2C_SEND [3, 0], I2C_RECV 6]\<rparr>), [100])"
proof -
  have run: "sps30_do_meas ready_first_client [7] 1 =
     Some (0, ready_first_client
             \<lparr>trace := [I2C_SEND [2, 2], I2C_RECV 3, I2C_SEND [3, 0], I2C_RECV 6]\<rparr>, [100])"
    by (simp add: eval_simps ready_first_client_def replicate16 float_eval_simps)
  show ?thesis
    using interrupted_sleep_is_ignored [of "\<lambda>k. 250" ready_first_client "[7]" 1] run
    by simp
qed

text \<open>
  The first sleep returns 250, cut short by a signal; the second poll is made all the
  same and the read returns 0.
\<close>

theorem interrupted_sleep_counterexample:
  "fst (msleep_interruptible (interrupted_client\<lparr>trace := [I2C_SEND [2, 2], I2C_RECV 3]\<rparr>) 300) = 250
   \<and> sps30_do_meas interrupted_client [7] 1 =
       Some (0, interrupted_client
               \<lparr>trace := [I2C_SEND [2, 2], I2C_RECV 3, MSLEEP 300, I2C_SEND [2, 2], I2C_RECV 3,
                          I2C_SEND [3, 0], I2C_RECV 6]\<rparr>,
             [100])"
  by (simp add: eval_simps interrupted_client_def replicate16 float_eval_simps)

section \<open>Error codes\<close>

text \<open>
  C7, as the code has it. \<open>sps30_do_cmd\<close> reports a short send, a short receive and a
  checksum failure with the same code \<open>-EIO\<close>, and hands a negative return of the bus on
  unchanged. Every return from inside the poll loop of \<open>sps30_do_meas\<close> is \<open>-EIO\<close>. The code
  of the readiness timeout, \<open>-ETIMEDOUT\<close>, differs from \<open>-EIO\<close>.
\<close>

theorem error_codes:
  "(is_read_cmd cmd \<and> sz + sz div 2 \<le> 48 \<and> send_ret st (length (trace st)) \<noteq> 2
      \<longrightarrow> sps30_do_cmd st cmd data sz =
            Some (if send_ret st (length (trace st)) < 0 then send_ret st (length (trace st))
                  else - EIO,
                  st\<lparr>trace := trace st @ [opcode cmd]\<rparr>, data))
   \<and> (is_read_cmd cmd2 \<and> sz2 + sz2 div 2 \<le> 48 \<and> send_ret st2 (length (trace st2)) = 2
       \<and> fst (recv_ret st2 (Suc (length (trace st2)))) \<noteq> int (sz2 + sz2 div 2)
      \<longrightarrow> sps30_do_cmd st2 cmd2 data2 sz2 =
            Some (if fst (recv_ret st2 (Suc (length (trace st2)))) < 0
                  then fst (recv_ret st2 (Suc (length (trace st2)))) else - EIO,
                  st2\<lparr>trace := trace st2 @ [opcode cmd2, I2C_RECV (sz2 + sz2 div 2)]\<rparr>, data2))
   \<and> (is_read_cmd cmd3 \<and> send_ret st3 (length (trace st3)) = 2
       \<and> recv_ret st3 (Suc (length (trace st3))) = (3, [a, b, c])
       \<and> c \<noteq> crc8 sps30_crc8_table [a, b] CRC8_INIT_VALUE
      \<longrightarrow> sps30_do_cmd st3 cmd3 data3 2 =
            Some (- EIO, st3\<lparr>trace := trace st3 @ [opcode cmd3, I2C_RECV 3]\<rparr>, data3))
   \<and> (sps30_do_meas_poll st4 tmp tries = Some (Some r, st4', tmp', tries') \<longrightarrow> r = - EIO)
   \<and> - ETIMEDOUT \<noteq> - EIO"
proof (intro conjI impI)
  assume "is_read_cmd cmd \<and> sz + sz div 2 \<le> 48 \<and> send_ret st (length (trace st)) \<noteq> 2"
  then show "sps30_do_cmd st cmd data sz =
            Some (if send_ret st (length (trace st)) < 0 then send_ret st (length (trace st))
                  else - EIO,
                  st\<lparr>trace := trace st @ [opcode cmd]\<rparr>, data)"
    by (simp add: do_cmd_read Let_def)
next
  assume "is_read_cmd cmd2 \<and> sz2 + sz2 div 2 \<le> 48 \<and> send_ret st2 (length (trace st2)) = 2
       \<and> fst (recv_ret st2 (Suc (length (trace st2)))) \<noteq> int (sz2 + sz2 div 2)"
  then show "sps30_do_cmd st2 cmd2 data2 sz2 =
            Some (if fst (recv_ret st2 (Suc (length (trace st2)))) < 0
                  then fst (recv_ret st2 (Suc (length (trace st2)))) else - EIO,
                  st2\<lparr>trace := trace st2 @ [opcode cmd2, I2C_RECV (sz2 + sz2 div 2)]\<rparr>, data2)"
    by (auto simp: do_cmd_read Let_def split: prod.splits)
next
  assume a: "is_read_cmd cmd3 \<and> send_ret st3 (length (trace st3)) = 2
       \<and> recv_ret st3 (Suc (length (trace st3))) = (3, [a, b, c])
       \<and> c \<noteq> crc8 sps30_crc8_table [a, b] CRC8_INIT_VALUE"
  define buf where "buf = [a, b, c] @ drop 3 (cmd_buf cmd3)"
  have nth: "buf ! 0 = a" "buf ! (0 + 1) = b" "buf ! (0 + 2) = c" "0 + 2 < length buf"
    by (simp_all add: buf_def cmd_buf_def)
  have loop: "sps30_strip_crc buf 3 0 data3 0 = Some (- EIO, data3)"
    using a nth by (intro strip_bad) simp_all
  have "sps30_do_cmd st3 cmd3 data3 2 =
          map_option (\<lambda>(ret, data). (ret, st3\<lparr>trace := trace st3 @ [opcode cmd3, I2C_RECV 3]\<rparr>, data))
            (sps30_strip_crc ([a, b, c] @ drop 3 (cmd_buf cmd3)) 3 0 data3 0)"
    using a by (intro do_cmd_read_ok) simp_all
  then show "sps30_do_cmd st3 cmd3 data3 2 =
            Some (- EIO, st3\<lparr>trace := trace st3 @ [opcode cmd3, I2C_RECV 3]\<rparr>, data3)"
    unfolding buf_def [symmetric] loop by simp
next
  assume "sps30_do_meas_poll st4 tmp tries = Some (Some r, st4', tmp', tries')"
  then show "r = - EIO"
    by (rule poll_return)
next
  show "- ETIMEDOUT \<noteq> - EIO"
    by (simp add: ETIMEDOUT_def EIO_def)
qed

theorem error_codes_witness:
  "sps30_do_cmd short_send_client SPS30_READ_DATA_READY_FLAG [0, 0] 2 =
     Some (- EIO, short_send_client\<lparr>trace := [opcode SPS30_READ_DATA_READY_FLAG]\<rparr>, [0, 0])
   \<and> sps30_do_cmd bus_error_client SPS30_READ_DATA_READY_FLAG [0, 0] 2 =
     Some (- 121, bus_error_client\<lparr>trace := [opcode SPS30_READ_DATA_READY_FLAG, I2C_RECV 3]\<rparr>, [0, 0])
   \<and> sps30_do_cmd bad_crc_client SPS30_READ_DATA_READY_FLAG [0, 0] 2 =
     Some (- EIO, bad_crc_client\<lparr>trace := [opcode SPS30_READ_DATA_READY_FLAG, I2C_RECV 3]\<rparr>, [0, 0])"
  using error_codes [of SPS30_READ_DATA_READY_FLAG 2 short_send_client "[0, 0]"
      SPS30_READ_DATA_READY_FLAG 2 bus_error_client "[0, 0]"
      SPS30_READ_DATA_READY_FLAG bad_crc_client 0 1 0 "[0, 0]"]
  by (simp add: is_read_cmd_def short_send_client_def bus_error_client_def bad_crc_client_def
      crc8_0001)

text \<open>
  A checksum failure and a short receive surface as the same code.
\<close>

theorem same_code_counterexample:
  "sps30_do_cmd bad_crc_client SPS30_READ_DATA_READY_FLAG [0, 0] 2 =
     Some (- EIO, bad_crc_client\<lparr>trace := [I2C_SEND [2, 2], I2C_RECV 3]\<rparr>, [0, 0])
   \<and> sps30_do_cmd short_recv_client SPS30_READ_DATA_READY_FLAG [0, 0] 2 =
     Some (- EIO, short_recv_client\<lparr>trace := [I2C_SEND [2, 2], I2C_RECV 3]\<rparr>, [0, 0])"
  by (simp add: eval_simps bad_crc_client_def short_recv_client_def)

end
